theory Spec2Isabelle
  imports Main
begin

section \<open>The data registry contract \<open>contracts/atmos-v2.clar\<close>\<close>

text \<open>
  The contract is a Clarity program. Its values are modelled as follows.
  \<^item> \<open>uint\<close> is an unsigned 128-bit integer: a \<open>nat\<close>, with the bound \<open>uint_max\<close> checked
    wherever the contract adds (\<open>uint_add\<close>). Clarity arithmetic does not wrap: an
    overflowing \<open>+\<close> raises a runtime error that aborts the call.
  \<^item> \<open>int\<close> is a signed 128-bit integer; the contract only compares it with constants, so
    it is an \<open>int\<close>.
  \<^item> \<open>principal\<close>, \<open>string-utf8\<close> and \<open>string-ascii\<close> are strings; \<open>len\<close> is \<open>length\<close>.
  \<^item> A response \<open>(ok v)\<close> is \<open>Inr v\<close> and \<open>(err e)\<close> is \<open>Inl e\<close>.
  \<^item> The data variables and the two maps form the record \<open>registry\<close>; \<open>tx-sender\<close> and
    \<open>burn-block-height\<close> are arguments (\<open>caller\<close>, \<open>now\<close>) of the public functions.
\<close>

type_synonym principal = string

datatype error =
    ERR_NOT_AUTHORIZED
  | ERR_DATASET_NOT_FOUND
  | ERR_INVALID_PARAMS
  | ERR_METADATA_FROZEN
  | ERR_CONTRACT_PAUSED
  | ERR_DATASET_EXISTS
  | ArithmeticOverflow

text \<open>The number carried by each error constant; the runtime error carries none.\<close>

fun error_code :: "error \<Rightarrow> nat option" where
  "error_code ERR_NOT_AUTHORIZED = Some 401"
| "error_code ERR_DATASET_NOT_FOUND = Some 404"
| "error_code ERR_INVALID_PARAMS = Some 400"
| "error_code ERR_METADATA_FROZEN = Some 403"
| "error_code ERR_CONTRACT_PAUSED = Some 503"
| "error_code ERR_DATASET_EXISTS = Some 409"
| "error_code ArithmeticOverflow = None"

definition MAX_OWNER_DATASETS :: nat where
  "MAX_OWNER_DATASETS = 1000"

definition MAX_PAGE_SIZE :: nat where
  "MAX_PAGE_SIZE = 100"

definition uint_max :: nat where
  "uint_max = 2 ^ 128 - 1"

definition uint_add :: "nat \<Rightarrow> nat \<Rightarrow> error + nat" where
  "uint_add a b = (if a + b \<le> uint_max then Inr (a + b) else Inl ArithmeticOverflow)"

record dataset =
  owner :: principal
  name :: string
  description :: string
  data_type :: string
  collection_date :: nat
  altitude_min :: nat
  altitude_max :: nat
  latitude :: int
  longitude :: int
  ipfs_hash :: string
  is_public :: bool
  metadata_frozen :: bool
  created_at :: nat
  status :: string

record registry =
  dataset_counter :: nat
  contract_admin :: principal
  contract_paused :: bool
  datasets :: "nat \<rightharpoonup> dataset"
  datasets_by_owner :: "principal \<rightharpoonup> nat list"

text \<open>The state right after deployment by \<open>deployer\<close>.\<close>

definition init_registry :: "principal \<Rightarrow> registry" where
  "init_registry deployer =
     \<lparr>dataset_counter = 0, contract_admin = deployer, contract_paused = False,
      datasets = Map.empty, datasets_by_owner = Map.empty\<rparr>"

record page =
  items :: "nat list"
  next_offset :: "nat option"

subsection \<open>Helpers the contract uses without defining them\<close>

text \<open>
  Modelled from the spec: \<open>range\<close> is called by \<open>get-dataset-ids-page\<close> and defined nowhere
  in the repository. The spec says the page holds the identifiers from \<open>offset + 1\<close> up to
  and including the last one, and the call is \<open>(range (+ offset u1) (+ last u1))\<close>: the
  upper argument is exclusive.
\<close>

definition range_list :: "nat \<Rightarrow> nat \<Rightarrow> nat list" where
  "range_list lo hi = [lo..<hi]"

text \<open>
  Modelled from the spec: \<open>contains\<close> is called by \<open>add-dataset-to-owner\<close> and defined
  nowhere in the repository. The spec says the addition is a no-op when the identifier is
  already present in the owner's sequence.
\<close>

definition contains :: "nat list \<Rightarrow> nat \<Rightarrow> bool" where
  "contains xs x = (x \<in> set xs)"

text \<open>\<open>as-max-len?\<close> of the language: the list itself when it fits, \<open>none\<close> otherwise.\<close>

definition as_max_len :: "nat list \<Rightarrow> nat \<Rightarrow> nat list option" where
  "as_max_len xs n = (if length xs \<le> n then Some xs else None)"

subsection \<open>Private functions\<close>

definition is_dataset_owner :: "registry \<Rightarrow> principal \<Rightarrow> nat \<Rightarrow> bool" where
  "is_dataset_owner s caller dataset_id =
     (case datasets s dataset_id of Some d \<Rightarrow> caller = owner d | None \<Rightarrow> False)"

text \<open>An owner entry is a tuple with the single field \<open>dataset-ids\<close>: the list itself.\<close>

definition get_owner_entry :: "registry \<Rightarrow> principal \<Rightarrow> nat list" where
  "get_owner_entry s ownr = (case datasets_by_owner s ownr of None \<Rightarrow> [] | Some l \<Rightarrow> l)"

definition get_owner_dataset_ids :: "registry \<Rightarrow> principal \<Rightarrow> nat list" where
  "get_owner_dataset_ids s ownr = get_owner_entry s ownr"

definition page_next_offset :: "nat \<Rightarrow> nat list \<Rightarrow> nat \<Rightarrow> error + nat option" where
  "page_next_offset offset pg total_n =
     (case uint_add offset (length pg) of
        Inl e \<Rightarrow> Inl e
      | Inr nxt \<Rightarrow> Inr (if nxt < total_n then Some nxt else None))"

text \<open>
  \<open>add-dataset-to-owner\<close> returns a response and may write the owner map: the model
  returns the response and the registry after the call. Its error payload is the constant
  \<open>ERR-INVALID-PARAMS\<close>; every caller replaces it by the same constant.
\<close>

definition add_dataset_to_owner ::
  "principal \<Rightarrow> nat \<Rightarrow> registry \<Rightarrow> (error + bool) \<times> registry" where
  "add_dataset_to_owner ownr dataset_id s =
     (let current = get_owner_dataset_ids s ownr in
      if contains current dataset_id then (Inr True, s)
      else (case as_max_len (current @ [dataset_id]) MAX_OWNER_DATASETS of
              Some updated \<Rightarrow>
                (Inr True, s\<lparr>datasets_by_owner := (datasets_by_owner s)(ownr \<mapsto> updated)\<rparr>)
            | None \<Rightarrow> (Inl ERR_INVALID_PARAMS, s)))"

text \<open>The accumulator of \<open>remove-fold\<close> is the tuple \<open>(result, target)\<close>.\<close>

definition remove_fold :: "nat \<Rightarrow> nat list \<times> nat \<Rightarrow> nat list \<times> nat" where
  "remove_fold item acc =
     (if item = snd acc then acc else (fst acc @ [item], snd acc))"

text \<open>\<open>remove-dataset-from-owner\<close> returns \<open>true\<close>, which its caller drops.\<close>

definition remove_dataset_from_owner :: "principal \<Rightarrow> nat \<Rightarrow> registry \<Rightarrow> registry" where
  "remove_dataset_from_owner ownr dataset_id s =
     (let current = get_owner_dataset_ids s ownr;
          updated = fst (fold remove_fold current ([], dataset_id))
      in s\<lparr>datasets_by_owner := (datasets_by_owner s)(ownr \<mapsto> updated)\<rparr>)"

definition is_valid_status :: "string \<Rightarrow> bool" where
  "is_valid_status st = (st = ''active'' \<or> st = ''deprecated'')"

definition validate_fields ::
  "string \<Rightarrow> string \<Rightarrow> string \<Rightarrow> nat \<Rightarrow> nat \<Rightarrow> nat \<Rightarrow> int \<Rightarrow> int \<Rightarrow> string \<Rightarrow> string \<Rightarrow> bool" where
  "validate_fields nm descr dtype cdate alt_min alt_max lat lon ipfs st =
     (length nm \<ge> 1 \<and>
      length descr \<ge> 1 \<and>
      length dtype \<ge> 1 \<and>
      cdate > 0 \<and>
      alt_max \<ge> alt_min \<and>
      (lat \<ge> -90 * 1000000 \<and> lat \<le> 90 * 1000000) \<and>
      (lon \<ge> -180 * 1000000 \<and> lon \<le> 180 * 1000000) \<and>
      (length ipfs = 0 \<or> length ipfs \<ge> 1) \<and>
      is_valid_status st)"

definition check_not_paused :: "registry \<Rightarrow> bool" where
  "check_not_paused s = (\<not> contract_paused s)"

subsection \<open>Read-only functions\<close>

text \<open>
  \<open>get-dataset\<close> answers \<open>(err ERR-DATASET-NOT-FOUND)\<close>, the constant wrapped in one more
  \<open>err\<close>; the model returns the constant.
\<close>

definition get_dataset :: "registry \<Rightarrow> nat \<Rightarrow> error + dataset" where
  "get_dataset s dataset_id =
     (case datasets s dataset_id of Some d \<Rightarrow> Inr d | None \<Rightarrow> Inl ERR_DATASET_NOT_FOUND)"

definition get_datasets_by_owner :: "registry \<Rightarrow> principal \<Rightarrow> nat list" where
  "get_datasets_by_owner s ownr =
     (case datasets_by_owner s ownr of None \<Rightarrow> [] | Some l \<Rightarrow> l)"

definition get_dataset_count :: "registry \<Rightarrow> nat" where
  "get_dataset_count s = dataset_counter s"

definition get_dataset_ids_page :: "registry \<Rightarrow> nat \<Rightarrow> nat \<Rightarrow> error + page" where
  "get_dataset_ids_page s offset limit =
     (let total_n = dataset_counter s in
      if total_n = 0 \<or> offset \<ge> total_n then Inr \<lparr>items = [], next_offset = None\<rparr>
      else
        let safe_limit = (if limit > MAX_PAGE_SIZE then MAX_PAGE_SIZE else limit) in
        case uint_add offset safe_limit of
          Inl e \<Rightarrow> Inl e
        | Inr end_n \<Rightarrow>
            let last_n = (if end_n > total_n then total_n else end_n) in
            (case uint_add offset 1 of
               Inl e \<Rightarrow> Inl e
             | Inr lo \<Rightarrow>
                 (case uint_add last_n 1 of
                    Inl e \<Rightarrow> Inl e
                  | Inr hi \<Rightarrow>
                      let its = range_list lo hi in
                      (case page_next_offset offset its total_n of
                         Inl e \<Rightarrow> Inl e
                       | Inr nxt \<Rightarrow> Inr \<lparr>items = its, next_offset = nxt\<rparr>))))"

subsection \<open>Public functions\<close>

text \<open>
  A public function of the language runs its body and, when the body answers \<open>(err e)\<close>
  or aborts with a runtime error, every write the body has made is discarded: the caller
  sees the error and the registry it started from. The bodies below keep the writes in
  the order of the source, with the early exits of \<open>asserts!\<close> and \<open>unwrap!\<close>;
  \<open>define_public\<close> is the commit-or-discard step.
\<close>

definition define_public ::
  "(registry \<Rightarrow> (error + 'a) \<times> registry) \<Rightarrow> registry \<Rightarrow> (error + 'a) \<times> registry" where
  "define_public body s =
     (case body s of
        (Inl e, s') \<Rightarrow> (Inl e, s)
      | (Inr v, s') \<Rightarrow> (Inr v, s'))"

definition register_dataset_body ::
  "principal \<Rightarrow> nat \<Rightarrow> string \<Rightarrow> string \<Rightarrow> string \<Rightarrow> nat \<Rightarrow> nat \<Rightarrow> nat \<Rightarrow> int \<Rightarrow> int \<Rightarrow> string \<Rightarrow> bool
     \<Rightarrow> registry \<Rightarrow> (error + nat) \<times> registry" where
  "register_dataset_body caller now nm descr dtype cdate alt_min alt_max lat lon ipfs pub s =
     (case uint_add (dataset_counter s) 1 of
        Inl e \<Rightarrow> (Inl e, s)
      | Inr dataset_id \<Rightarrow>
          if \<not> check_not_paused s then (Inl ERR_CONTRACT_PAUSED, s)
          else if \<not> validate_fields nm descr dtype cdate alt_min alt_max lat lon ipfs ''active''
            then (Inl ERR_INVALID_PARAMS, s)
          else
            let s1 = s\<lparr>datasets := (datasets s)(dataset_id \<mapsto>
                       \<lparr>owner = caller, name = nm, description = descr, data_type = dtype,
                        collection_date = cdate, altitude_min = alt_min,
                        altitude_max = alt_max, latitude = lat, longitude = lon,
                        ipfs_hash = ipfs, is_public = pub, metadata_frozen = False,
                        created_at = now, status = ''active''\<rparr>)\<rparr>
            in (case add_dataset_to_owner caller dataset_id s1 of
                  (Inl e, s2) \<Rightarrow> (Inl ERR_INVALID_PARAMS, s2)
                | (Inr b, s2) \<Rightarrow> (Inr dataset_id, s2\<lparr>dataset_counter := dataset_id\<rparr>)))"

definition register_dataset ::
  "principal \<Rightarrow> nat \<Rightarrow> string \<Rightarrow> string \<Rightarrow> string \<Rightarrow> nat \<Rightarrow> nat \<Rightarrow> nat \<Rightarrow> int \<Rightarrow> int \<Rightarrow> string \<Rightarrow> bool
     \<Rightarrow> registry \<Rightarrow> (error + nat) \<times> registry" where
  "register_dataset caller now nm descr dtype cdate alt_min alt_max lat lon ipfs pub =
     define_public
       (register_dataset_body caller now nm descr dtype cdate alt_min alt_max lat lon ipfs pub)"

definition update_dataset_metadata_body ::
  "principal \<Rightarrow> nat \<Rightarrow> string \<Rightarrow> string \<Rightarrow> string \<Rightarrow> bool
     \<Rightarrow> registry \<Rightarrow> (error + bool) \<times> registry" where
  "update_dataset_metadata_body caller dataset_id nm descr dtype pub s =
     (case datasets s dataset_id of
        None \<Rightarrow> (Inl ERR_DATASET_NOT_FOUND, s)
      | Some d \<Rightarrow>
          if \<not> check_not_paused s then (Inl ERR_CONTRACT_PAUSED, s)
          else if \<not> is_dataset_owner s caller dataset_id then (Inl ERR_NOT_AUTHORIZED, s)
          else if \<not> (\<not> metadata_frozen d) then (Inl ERR_METADATA_FROZEN, s)
          else if \<not> (length nm \<ge> 1 \<and> length descr \<ge> 1 \<and> length dtype \<ge> 1)
            then (Inl ERR_INVALID_PARAMS, s)
          else
            (Inr True,
             s\<lparr>datasets := (datasets s)(dataset_id \<mapsto>
                  d\<lparr>name := nm, description := descr, data_type := dtype,
                    is_public := pub\<rparr>)\<rparr>))"

definition update_dataset_metadata ::
  "principal \<Rightarrow> nat \<Rightarrow> string \<Rightarrow> string \<Rightarrow> string \<Rightarrow> bool
     \<Rightarrow> registry \<Rightarrow> (error + bool) \<times> registry" where
  "update_dataset_metadata caller dataset_id nm descr dtype pub =
     define_public (update_dataset_metadata_body caller dataset_id nm descr dtype pub)"

definition freeze_dataset_metadata_body ::
  "principal \<Rightarrow> nat \<Rightarrow> registry \<Rightarrow> (error + bool) \<times> registry" where
  "freeze_dataset_metadata_body caller dataset_id s =
     (case datasets s dataset_id of
        None \<Rightarrow> (Inl ERR_DATASET_NOT_FOUND, s)
      | Some d \<Rightarrow>
          if \<not> check_not_paused s then (Inl ERR_CONTRACT_PAUSED, s)
          else if \<not> is_dataset_owner s caller dataset_id then (Inl ERR_NOT_AUTHORIZED, s)
          else
            (Inr True,
             s\<lparr>datasets := (datasets s)(dataset_id \<mapsto> d\<lparr>metadata_frozen := True\<rparr>)\<rparr>))"

definition freeze_dataset_metadata ::
  "principal \<Rightarrow> nat \<Rightarrow> registry \<Rightarrow> (error + bool) \<times> registry" where
  "freeze_dataset_metadata caller dataset_id =
     define_public (freeze_dataset_metadata_body caller dataset_id)"

definition transfer_dataset_body ::
  "principal \<Rightarrow> nat \<Rightarrow> principal \<Rightarrow> registry \<Rightarrow> (error + bool) \<times> registry" where
  "transfer_dataset_body caller dataset_id new_owner s =
     (case datasets s dataset_id of
        None \<Rightarrow> (Inl ERR_DATASET_NOT_FOUND, s)
      | Some d \<Rightarrow>
          let old_owner = owner d in
          if \<not> check_not_paused s then (Inl ERR_CONTRACT_PAUSED, s)
          else if \<not> is_dataset_owner s caller dataset_id then (Inl ERR_NOT_AUTHORIZED, s)
          else
            let s1 = s\<lparr>datasets := (datasets s)(dataset_id \<mapsto> d\<lparr>owner := new_owner\<rparr>)\<rparr>;
                s2 = remove_dataset_from_owner old_owner dataset_id s1
            in (case add_dataset_to_owner new_owner dataset_id s2 of
                  (Inl e, s3) \<Rightarrow> (Inl ERR_INVALID_PARAMS, s3)
                | (Inr b, s3) \<Rightarrow> (Inr True, s3)))"

definition transfer_dataset ::
  "principal \<Rightarrow> nat \<Rightarrow> principal \<Rightarrow> registry \<Rightarrow> (error + bool) \<times> registry" where
  "transfer_dataset caller dataset_id new_owner =
     define_public (transfer_dataset_body caller dataset_id new_owner)"

definition import_dataset_body ::
  "principal \<Rightarrow> nat \<Rightarrow> principal \<Rightarrow> string \<Rightarrow> string \<Rightarrow> string \<Rightarrow> nat \<Rightarrow> nat \<Rightarrow> nat \<Rightarrow> int \<Rightarrow> int
     \<Rightarrow> string \<Rightarrow> bool \<Rightarrow> bool \<Rightarrow> nat \<Rightarrow> string \<Rightarrow> registry \<Rightarrow> (error + nat) \<times> registry" where
  "import_dataset_body caller dataset_id ownr nm descr dtype cdate alt_min alt_max lat lon
       ipfs pub frozen created st s =
     (if \<not> (caller = contract_admin s) then (Inl ERR_NOT_AUTHORIZED, s)
      else if \<not> check_not_paused s then (Inl ERR_CONTRACT_PAUSED, s)
      else if \<not> (dataset_id > 0) then (Inl ERR_INVALID_PARAMS, s)
      else if \<not> (datasets s dataset_id = None) then (Inl ERR_DATASET_EXISTS, s)
      else if \<not> validate_fields nm descr dtype cdate alt_min alt_max lat lon ipfs st
        then (Inl ERR_INVALID_PARAMS, s)
      else
        let s1 = s\<lparr>datasets := (datasets s)(dataset_id \<mapsto>
                   \<lparr>owner = ownr, name = nm, description = descr, data_type = dtype,
                    collection_date = cdate, altitude_min = alt_min,
                    altitude_max = alt_max, latitude = lat, longitude = lon,
                    ipfs_hash = ipfs, is_public = pub, metadata_frozen = frozen,
                    created_at = created, status = st\<rparr>)\<rparr>
        in (case add_dataset_to_owner ownr dataset_id s1 of
              (Inl e, s2) \<Rightarrow> (Inl ERR_INVALID_PARAMS, s2)
            | (Inr b, s2) \<Rightarrow>
                (Inr dataset_id,
                 if dataset_id > dataset_counter s2
                 then s2\<lparr>dataset_counter := dataset_id\<rparr> else s2)))"

definition import_dataset ::
  "principal \<Rightarrow> nat \<Rightarrow> principal \<Rightarrow> string \<Rightarrow> string \<Rightarrow> string \<Rightarrow> nat \<Rightarrow> nat \<Rightarrow> nat \<Rightarrow> int \<Rightarrow> int
     \<Rightarrow> string \<Rightarrow> bool \<Rightarrow> bool \<Rightarrow> nat \<Rightarrow> string \<Rightarrow> registry \<Rightarrow> (error + nat) \<times> registry" where
  "import_dataset caller dataset_id ownr nm descr dtype cdate alt_min alt_max lat lon
       ipfs pub frozen created st =
     define_public
       (import_dataset_body caller dataset_id ownr nm descr dtype cdate alt_min alt_max
          lat lon ipfs pub frozen created st)"

definition set_contract_admin_body ::
  "principal \<Rightarrow> principal \<Rightarrow> registry \<Rightarrow> (error + principal) \<times> registry" where
  "set_contract_admin_body caller new_admin s =
     (if \<not> (caller = contract_admin s) then (Inl ERR_NOT_AUTHORIZED, s)
      else (Inr new_admin, s\<lparr>contract_admin := new_admin\<rparr>))"

definition set_contract_admin ::
  "principal \<Rightarrow> principal \<Rightarrow> registry \<Rightarrow> (error + principal) \<times> registry" where
  "set_contract_admin caller new_admin = define_public (set_contract_admin_body caller new_admin)"

definition set_paused_body ::
  "principal \<Rightarrow> bool \<Rightarrow> registry \<Rightarrow> (error + bool) \<times> registry" where
  "set_paused_body caller paused s =
     (if \<not> (caller = contract_admin s) then (Inl ERR_NOT_AUTHORIZED, s)
      else (Inr paused, s\<lparr>contract_paused := paused\<rparr>))"

definition set_paused ::
  "principal \<Rightarrow> bool \<Rightarrow> registry \<Rightarrow> (error + bool) \<times> registry" where
  "set_paused caller paused = define_public (set_paused_body caller paused)"

subsection \<open>Calls, runs and reachable registries\<close>

text \<open>
  A call names a public function, its \<open>tx-sender\<close> (first argument) and its arguments;
  \<open>Register\<close> also carries the block height of the call. A call leaves the registry that
  the public function commits.
\<close>

datatype call =
    Register principal nat string string string nat nat nat int int string bool
  | UpdateMetadata principal nat string string string bool
  | FreezeMetadata principal nat
  | Transfer principal nat principal
  | Import principal nat principal string string string nat nat nat int int string bool bool
      nat string
  | SetAdmin principal principal
  | SetPaused principal bool

fun apply_call :: "call \<Rightarrow> registry \<Rightarrow> registry" where
  "apply_call (Register caller now nm descr dtype cdate alt_min alt_max lat lon ipfs pub) s =
     snd (register_dataset caller now nm descr dtype cdate alt_min alt_max lat lon ipfs pub s)"
| "apply_call (UpdateMetadata caller dataset_id nm descr dtype pub) s =
     snd (update_dataset_metadata caller dataset_id nm descr dtype pub s)"
| "apply_call (FreezeMetadata caller dataset_id) s =
     snd (freeze_dataset_metadata caller dataset_id s)"
| "apply_call (Transfer caller dataset_id new_owner) s =
     snd (transfer_dataset caller dataset_id new_owner s)"
| "apply_call (Import caller dataset_id ownr nm descr dtype cdate alt_min alt_max lat lon ipfs
       pub frozen created st) s =
     snd (import_dataset caller dataset_id ownr nm descr dtype cdate alt_min alt_max lat lon
            ipfs pub frozen created st s)"
| "apply_call (SetAdmin caller new_admin) s = snd (set_contract_admin caller new_admin s)"
| "apply_call (SetPaused caller paused) s = snd (set_paused caller paused s)"

fun run_calls :: "call list \<Rightarrow> registry \<Rightarrow> registry" where
  "run_calls [] s = s"
| "run_calls (c # cs) s = run_calls cs (apply_call c s)"

text \<open>The registries the contract can be in: a deployment followed by calls.\<close>

inductive reachable :: "registry \<Rightarrow> bool" where
  reachable_init: "reachable (init_registry deployer)"
| reachable_step: "reachable s \<Longrightarrow> reachable (apply_call c s)"

text \<open>
  The invariant that links the two maps: every record is listed by its owner and has an
  identifier up to the counter, every listed identifier is a record of that owner, and
  an owner's list has no duplicates and at most \<open>MAX_OWNER_DATASETS\<close> entries.
\<close>

definition registry_inv :: "registry \<Rightarrow> bool" where
  "registry_inv s \<longleftrightarrow>
     (\<forall>i d. datasets s i = Some d \<longrightarrow>
        i \<in> set (get_owner_dataset_ids s (owner d)) \<and> i \<le> dataset_counter s) \<and>
     (\<forall>ownr i. i \<in> set (get_owner_dataset_ids s ownr) \<longrightarrow>
        (\<exists>d. datasets s i = Some d \<and> owner d = ownr)) \<and>
     (\<forall>ownr. distinct (get_owner_dataset_ids s ownr) \<and>
        length (get_owner_dataset_ids s ownr) \<le> MAX_OWNER_DATASETS)"

subsection \<open>Sample data\<close>

text \<open>
  The registration the repository's tests submit (their helper \<open>registerDataset\<close>), at
  block height 7, the record it stores, and a registry in which one owner's list is full.
\<close>

definition register_sample :: "principal \<Rightarrow> call" where
  "register_sample caller =
     Register caller 7 ''Temperature Data'' ''Atmospheric dataset'' ''temperature''
       1640995200 1000 5000 40000000 (-74000000) ''QmTestHash123'' True"

definition sample_dataset :: "principal \<Rightarrow> bool \<Rightarrow> dataset" where
  "sample_dataset ownr frozen =
     \<lparr>owner = ownr, name = ''Temperature Data'', description = ''Atmospheric dataset'',
      data_type = ''temperature'', collection_date = 1640995200, altitude_min = 1000,
      altitude_max = 5000, latitude = 40000000, longitude = -74000000,
      ipfs_hash = ''QmTestHash123'', is_public = True, metadata_frozen = frozen,
      created_at = 7, status = ''active''\<rparr>"

definition import_sample :: "principal \<Rightarrow> nat \<Rightarrow> principal \<Rightarrow> registry \<Rightarrow> (error + nat) \<times> registry" where
  "import_sample caller dataset_id ownr =
     import_dataset caller dataset_id ownr ''Temperature Data'' ''Atmospheric dataset''
       ''temperature'' 1640995200 1000 5000 40000000 (-74000000) ''QmTestHash123'' True
       True 3 ''deprecated''"

definition full_index_registry :: registry where
  "full_index_registry =
     \<lparr>dataset_counter = 1001, contract_admin = ''admin'', contract_paused = False,
      datasets = (\<lambda>i. if i = 0 \<or> 1001 < i then None
                       else Some (sample_dataset (if i = 1 then ''alice'' else ''bob'') False)),
      datasets_by_owner = [''alice'' \<mapsto> [1], ''bob'' \<mapsto> [2..<1002]]\<rparr>"

section \<open>Basic facts\<close>

lemmas public_defs =
  register_dataset_def register_dataset_body_def
  update_dataset_metadata_def update_dataset_metadata_body_def
  freeze_dataset_metadata_def freeze_dataset_metadata_body_def
  transfer_dataset_def transfer_dataset_body_def
  import_dataset_def import_dataset_body_def
  set_contract_admin_def set_contract_admin_body_def
  set_paused_def set_paused_body_def

lemma len_ge1: "(Suc 0 \<le> length xs) = (xs \<noteq> [])"
  by (cases xs) auto

lemma uint_max_value: "uint_max = 340282366920938463463374607431768211455"
  by (simp add: uint_max_def)

lemmas eval_defs =
  public_defs define_public_def init_registry_def check_not_paused_def uint_add_def
  uint_max_value add_dataset_to_owner_def contains_def as_max_len_def
  get_owner_dataset_ids_def get_owner_entry_def remove_dataset_from_owner_def
  remove_fold_def validate_fields_def is_valid_status_def is_dataset_owner_def
  MAX_OWNER_DATASETS_def MAX_PAGE_SIZE_def Let_def register_sample_def sample_dataset_def
  import_sample_def

lemma define_public_error_keeps:
  "isl (fst (define_public body s)) \<Longrightarrow> snd (define_public body s) = s"
  by (cases "body s"; cases "fst (body s)") (auto simp: define_public_def)

lemma fold_remove_fold: "fold remove_fold xs (acc, t) = (acc @ filter (\<lambda>x. x \<noteq> t) xs, t)"
  by (induction xs arbitrary: acc) (auto simp: remove_fold_def)

lemma ids_eq:
  "get_owner_dataset_ids s ownr = (case datasets_by_owner s ownr of None \<Rightarrow> [] | Some l \<Rightarrow> l)"
  by (simp add: get_owner_dataset_ids_def get_owner_entry_def)

lemma ids_upd:
  "get_owner_dataset_ids (s\<lparr>datasets_by_owner := m\<rparr>) ownr =
     (case m ownr of None \<Rightarrow> [] | Some l \<Rightarrow> l)"
  by (simp add: ids_eq)

lemma ids_datasets_upd:
  "get_owner_dataset_ids (s\<lparr>datasets := m\<rparr>) ownr = get_owner_dataset_ids s ownr"
  by (simp add: ids_eq)

lemma ids_counter_upd:
  "get_owner_dataset_ids (s\<lparr>dataset_counter := n\<rparr>) ownr = get_owner_dataset_ids s ownr"
  by (simp add: ids_eq)

lemmas ids_upds = ids_upd ids_datasets_upd ids_counter_upd

lemma ids_after_append:
  "get_owner_dataset_ids
     (s\<lparr>datasets_by_owner := (datasets_by_owner s)(ownr \<mapsto> xs)\<rparr>) ownr = xs"
  by (simp add: ids_eq)

lemma remove_dataset_from_owner_eq:
  "remove_dataset_from_owner ownr i s =
     s\<lparr>datasets_by_owner := (datasets_by_owner s)
          (ownr \<mapsto> filter (\<lambda>x. x \<noteq> i) (get_owner_dataset_ids s ownr))\<rparr>"
  by (simp add: remove_dataset_from_owner_def fold_remove_fold)

lemma add_dataset_to_owner_eq:
  "add_dataset_to_owner ownr i s =
     (if i \<in> set (get_owner_dataset_ids s ownr) then (Inr True, s)
      else if length (get_owner_dataset_ids s ownr) < MAX_OWNER_DATASETS
        then (Inr True, s\<lparr>datasets_by_owner :=
               (datasets_by_owner s)(ownr \<mapsto> get_owner_dataset_ids s ownr @ [i])\<rparr>)
      else (Inl ERR_INVALID_PARAMS, s))"
  by (auto simp: add_dataset_to_owner_def contains_def as_max_len_def Let_def)

lemma metadata_update_fields:
  "d\<lparr>name := nm, description := descr, data_type := dtype, is_public := pub\<rparr> =
     \<lparr>owner = owner d, name = nm, description = descr, data_type = dtype,
      collection_date = collection_date d, altitude_min = altitude_min d,
      altitude_max = altitude_max d, latitude = latitude d,
      longitude = longitude d, ipfs_hash = ipfs_hash d, is_public = pub,
      metadata_frozen = metadata_frozen d, created_at = created_at d,
      status = status d\<rparr>"
  by (cases d) simp

lemma count_list_distinct: "distinct xs \<Longrightarrow> x \<in> set xs \<Longrightarrow> count_list xs x = 1"
  by (induction xs) (auto simp: count_list_0_iff)

section \<open>What each public function returns and commits\<close>

lemma register_dataset_cases:
  "register_dataset caller now nm descr dtype cdate alt_min alt_max lat lon ipfs pub s =
     (let n = dataset_counter s + 1; cur = get_owner_dataset_ids s caller in
      if uint_max < n then (Inl ArithmeticOverflow, s)
      else if contract_paused s then (Inl ERR_CONTRACT_PAUSED, s)
      else if \<not> validate_fields nm descr dtype cdate alt_min alt_max lat lon ipfs ''active''
        then (Inl ERR_INVALID_PARAMS, s)
      else if n \<notin> set cur \<and> MAX_OWNER_DATASETS \<le> length cur then (Inl ERR_INVALID_PARAMS, s)
      else (Inr n,
            s\<lparr>dataset_counter := n,
              datasets := (datasets s)(n \<mapsto>
                \<lparr>owner = caller, name = nm, description = descr, data_type = dtype,
                 collection_date = cdate, altitude_min = alt_min,
                 altitude_max = alt_max, latitude = lat, longitude = lon,
                 ipfs_hash = ipfs, is_public = pub, metadata_frozen = False,
                 created_at = now, status = ''active''\<rparr>),
              datasets_by_owner :=
                (if n \<in> set cur then datasets_by_owner s
                 else (datasets_by_owner s)(caller \<mapsto> cur @ [n]))\<rparr>))"
  by (auto simp: register_dataset_def register_dataset_body_def define_public_def
        check_not_paused_def uint_add_def add_dataset_to_owner_eq ids_upds Let_def)

lemma update_dataset_metadata_cases:
  "update_dataset_metadata caller i nm descr dtype pub s =
     (case datasets s i of
        None \<Rightarrow> (Inl ERR_DATASET_NOT_FOUND, s)
      | Some d \<Rightarrow>
          if contract_paused s then (Inl ERR_CONTRACT_PAUSED, s)
          else if caller \<noteq> owner d then (Inl ERR_NOT_AUTHORIZED, s)
          else if metadata_frozen d then (Inl ERR_METADATA_FROZEN, s)
          else if nm = [] \<or> descr = [] \<or> dtype = [] then (Inl ERR_INVALID_PARAMS, s)
          else (Inr True,
                s\<lparr>datasets := (datasets s)(i \<mapsto>
                     d\<lparr>name := nm, description := descr, data_type := dtype,
                       is_public := pub\<rparr>)\<rparr>))"
  by (auto simp: public_defs define_public_def check_not_paused_def is_dataset_owner_def len_ge1
      split: option.splits)

lemma freeze_dataset_metadata_cases:
  "freeze_dataset_metadata caller i s =
     (case datasets s i of
        None \<Rightarrow> (Inl ERR_DATASET_NOT_FOUND, s)
      | Some d \<Rightarrow>
          if contract_paused s then (Inl ERR_CONTRACT_PAUSED, s)
          else if caller \<noteq> owner d then (Inl ERR_NOT_AUTHORIZED, s)
          else (Inr True, s\<lparr>datasets := (datasets s)(i \<mapsto> d\<lparr>metadata_frozen := True\<rparr>)\<rparr>))"
  by (auto simp: public_defs define_public_def check_not_paused_def is_dataset_owner_def
      split: option.splits)

lemma transfer_dataset_cases:
  "transfer_dataset caller i new_owner s =
     (case datasets s i of
        None \<Rightarrow> (Inl ERR_DATASET_NOT_FOUND, s)
      | Some d \<Rightarrow>
          if contract_paused s then (Inl ERR_CONTRACT_PAUSED, s)
          else if caller \<noteq> owner d then (Inl ERR_NOT_AUTHORIZED, s)
          else
            let mid = (datasets_by_owner s)(owner d \<mapsto>
                         filter (\<lambda>x. x \<noteq> i) (get_owner_dataset_ids s (owner d)));
                cur = (case mid new_owner of None \<Rightarrow> [] | Some l \<Rightarrow> l)
            in if i \<notin> set cur \<and> MAX_OWNER_DATASETS \<le> length cur then (Inl ERR_INVALID_PARAMS, s)
               else (Inr True,
                     s\<lparr>datasets := (datasets s)(i \<mapsto> d\<lparr>owner := new_owner\<rparr>),
                       datasets_by_owner :=
                         (if i \<in> set cur then mid else mid(new_owner \<mapsto> cur @ [i]))\<rparr>))"
  by (auto simp: transfer_dataset_def transfer_dataset_body_def define_public_def
        check_not_paused_def is_dataset_owner_def add_dataset_to_owner_eq
        remove_dataset_from_owner_eq ids_upds Let_def
      split: option.splits)

lemma import_dataset_cases:
  assumes "caller = contract_admin s"
  shows "import_dataset caller i ownr nm descr dtype cdate alt_min alt_max lat lon ipfs pub
           frozen created st s =
     (let cur = get_owner_dataset_ids s ownr in
      if contract_paused s then (Inl ERR_CONTRACT_PAUSED, s)
      else if i = 0 then (Inl ERR_INVALID_PARAMS, s)
      else if datasets s i \<noteq> None then (Inl ERR_DATASET_EXISTS, s)
      else if \<not> validate_fields nm descr dtype cdate alt_min alt_max lat lon ipfs st
        then (Inl ERR_INVALID_PARAMS, s)
      else if i \<notin> set cur \<and> MAX_OWNER_DATASETS \<le> length cur then (Inl ERR_INVALID_PARAMS, s)
      else (Inr i,
            s\<lparr>dataset_counter := max (dataset_counter s) i,
              datasets := (datasets s)(i \<mapsto>
                \<lparr>owner = ownr, name = nm, description = descr, data_type = dtype,
                 collection_date = cdate, altitude_min = alt_min,
                 altitude_max = alt_max, latitude = lat, longitude = lon,
                 ipfs_hash = ipfs, is_public = pub, metadata_frozen = frozen,
                 created_at = created, status = st\<rparr>),
              datasets_by_owner :=
                (if i \<in> set cur then datasets_by_owner s
                 else (datasets_by_owner s)(ownr \<mapsto> cur @ [i]))\<rparr>))"
  using assms
  by (auto simp: import_dataset_def import_dataset_body_def define_public_def
        check_not_paused_def add_dataset_to_owner_eq ids_upds Let_def max_def)

lemma import_dataset_not_admin:
  "caller \<noteq> contract_admin s \<Longrightarrow>
   import_dataset caller i ownr nm descr dtype cdate alt_min alt_max lat lon ipfs pub
     frozen created st s = (Inl ERR_NOT_AUTHORIZED, s)"
  by (simp add: import_dataset_def import_dataset_body_def define_public_def)

text \<open>
  The body of a transfer writes the record and the old owner's list before it finds the
  new owner's list full: only the discard step of the public call undoes these writes.
\<close>

lemma transfer_body_writes_before_capacity_check:
  assumes "datasets s i = Some d" "\<not> contract_paused s" "caller = owner d"
    "new_owner \<noteq> owner d" "i \<notin> set (get_owner_dataset_ids s new_owner)"
    "length (get_owner_dataset_ids s new_owner) = MAX_OWNER_DATASETS"
  shows "fst (transfer_dataset_body caller i new_owner s) = Inl ERR_INVALID_PARAMS"
    and "datasets (snd (transfer_dataset_body caller i new_owner s)) i
          = Some (d\<lparr>owner := new_owner\<rparr>)"
  using assms
  by (auto simp: transfer_dataset_body_def check_not_paused_def is_dataset_owner_def
        add_dataset_to_owner_eq remove_dataset_from_owner_eq ids_upds ids_eq Let_def)

section \<open>The invariant of reachable registries\<close>

lemma registry_inv_init: "registry_inv (init_registry deployer)"
  by (simp add: registry_inv_def init_registry_def ids_eq)

lemma inv_listed: "registry_inv s \<Longrightarrow> datasets s i = Some d \<Longrightarrow> i \<in> set (get_owner_dataset_ids s (owner d))"
  by (simp add: registry_inv_def)

lemma inv_le_counter: "registry_inv s \<Longrightarrow> datasets s i = Some d \<Longrightarrow> i \<le> dataset_counter s"
  by (simp add: registry_inv_def)

lemma inv_record: "registry_inv s \<Longrightarrow> i \<in> set (get_owner_dataset_ids s ownr) \<Longrightarrow> \<exists>d. datasets s i = Some d \<and> owner d = ownr"
  by (simp add: registry_inv_def)

lemma inv_distinct: "registry_inv s \<Longrightarrow> distinct (get_owner_dataset_ids s ownr)"
  by (simp add: registry_inv_def)

lemma inv_length: "registry_inv s \<Longrightarrow> length (get_owner_dataset_ids s ownr) \<le> MAX_OWNER_DATASETS"
  by (simp add: registry_inv_def)

lemma inv_absent_unlisted:
  "registry_inv s \<Longrightarrow> datasets s i = None \<Longrightarrow> i \<notin> set (get_owner_dataset_ids s ownr)"
  using inv_record by fastforce

lemma inv_fresh_absent: "registry_inv s \<Longrightarrow> datasets s (dataset_counter s + 1) = None"
  using inv_le_counter by fastforce

lemma registry_invI:
  assumes "\<And>i d. datasets s i = Some d \<Longrightarrow> i \<in> set (get_owner_dataset_ids s (owner d))"
    and "\<And>i d. datasets s i = Some d \<Longrightarrow> i \<le> dataset_counter s"
    and "\<And>ownr i. i \<in> set (get_owner_dataset_ids s ownr) \<Longrightarrow> \<exists>d. datasets s i = Some d \<and> owner d = ownr"
    and "\<And>ownr. distinct (get_owner_dataset_ids s ownr)"
    and "\<And>ownr. length (get_owner_dataset_ids s ownr) \<le> MAX_OWNER_DATASETS"
  shows "registry_inv s"
  using assms unfolding registry_inv_def by blast

text \<open>A fresh record appended to its owner's list.\<close>
lemma registry_inv_insert:
  assumes inv: "registry_inv s" and absent: "datasets s n = None"
    and room: "length (get_owner_dataset_ids s (owner r)) < MAX_OWNER_DATASETS"
    and cnt: "dataset_counter s \<le> c" "n \<le> c"
  shows "registry_inv (s\<lparr>dataset_counter := c, datasets := (datasets s)(n \<mapsto> r),
            datasets_by_owner := (datasets_by_owner s)(owner r \<mapsto> get_owner_dataset_ids s (owner r) @ [n])\<rparr>)"
    (is "registry_inv ?s'")
proof -
  have unl: "\<And>ownr. n \<notin> set (get_owner_dataset_ids s ownr)"
    using inv absent by (rule inv_absent_unlisted)
  have ids': "\<And>ownr. get_owner_dataset_ids ?s' ownr =
      (if ownr = owner r then get_owner_dataset_ids s (owner r) @ [n] else get_owner_dataset_ids s ownr)"
    by (simp add: ids_eq)
  show ?thesis
  proof (rule registry_invI)
    fix i d assume "datasets ?s' i = Some d"
    then show "i \<in> set (get_owner_dataset_ids ?s' (owner d))"
      using inv_listed [OF inv, of i d] by (auto simp: ids' split: if_splits)
  next
    fix i d assume "datasets ?s' i = Some d"
    then show "i \<le> dataset_counter ?s'"
      using inv_le_counter [OF inv, of i d] cnt by (auto split: if_splits)
  next
    fix ownr i assume "i \<in> set (get_owner_dataset_ids ?s' ownr)"
    then show "\<exists>d. datasets ?s' i = Some d \<and> owner d = ownr"
      using inv_record [OF inv, of i ownr] unl by (auto simp: ids' split: if_splits)
  next
    fix ownr show "distinct (get_owner_dataset_ids ?s' ownr)"
      using inv_distinct [OF inv] unl by (simp add: ids')
  next
    fix ownr show "length (get_owner_dataset_ids ?s' ownr) \<le> MAX_OWNER_DATASETS"
      using inv_length [OF inv] room by (simp add: ids')
  qed
qed

lemma registry_inv_register:
  assumes inv: "registry_inv s"
  shows "registry_inv (snd (register_dataset caller now nm descr dtype cdate alt_min alt_max lat lon ipfs pub s))"
proof -
  have absent: "datasets s (dataset_counter s + 1) = None"
    using inv by (rule inv_fresh_absent)
  have unl: "dataset_counter s + 1 \<notin> set (get_owner_dataset_ids s caller)"
    using inv absent by (rule inv_absent_unlisted)
  show ?thesis
    unfolding register_dataset_cases Let_def
    using inv unl registry_inv_insert [OF inv absent, of
        "\<lparr>owner = caller, name = nm, description = descr, data_type = dtype,
                 collection_date = cdate, altitude_min = alt_min,
                 altitude_max = alt_max, latitude = lat, longitude = lon,
                 ipfs_hash = ipfs, is_public = pub, metadata_frozen = False,
                 created_at = now, status = ''active''\<rparr>" "dataset_counter s + 1"]
    by (simp add: not_le)
qed

lemma registry_inv_import:
  assumes inv: "registry_inv s"
  shows "registry_inv (snd (import_dataset caller i ownr nm descr dtype cdate alt_min alt_max lat lon ipfs pub frozen created st s))"
proof (cases "caller = contract_admin s")
  case False
  then show ?thesis using inv by (simp add: import_dataset_not_admin)
next
  case True
  show ?thesis
  proof (cases "datasets s i = None")
    case False
    then show ?thesis using inv by (simp add: import_dataset_cases [OF True] Let_def)
  next
    case absent: True
    have unl: "i \<notin> set (get_owner_dataset_ids s ownr)"
      using inv absent by (rule inv_absent_unlisted)
    show ?thesis
      unfolding import_dataset_cases [OF True] Let_def
      using inv unl registry_inv_insert [OF inv absent, of
        "\<lparr>owner = ownr, name = nm, description = descr, data_type = dtype,
                 collection_date = cdate, altitude_min = alt_min,
                 altitude_max = alt_max, latitude = lat, longitude = lon,
                 ipfs_hash = ipfs, is_public = pub, metadata_frozen = frozen,
                 created_at = created, status = st\<rparr>" "max (dataset_counter s) i"]
      by (simp add: not_le)
  qed
qed

lemma registry_inv_record_update:
  assumes inv: "registry_inv s" and rec: "datasets s i = Some d" and own: "owner d' = owner d"
  shows "registry_inv (s\<lparr>datasets := (datasets s)(i \<mapsto> d')\<rparr>)" (is "registry_inv ?s'")
proof (rule registry_invI)
  fix j dj assume "datasets ?s' j = Some dj"
  then show "j \<in> set (get_owner_dataset_ids ?s' (owner dj))"
    using inv_listed [OF inv, of j dj] inv_listed [OF inv rec] own
    by (auto simp: ids_datasets_upd split: if_splits)
next
  fix j dj assume "datasets ?s' j = Some dj"
  then show "j \<le> dataset_counter ?s'"
    using inv_le_counter [OF inv, of j dj] inv_le_counter [OF inv rec]
    by (auto split: if_splits)
next
  fix ownr j assume "j \<in> set (get_owner_dataset_ids ?s' ownr)"
  then show "\<exists>dj. datasets ?s' j = Some dj \<and> owner dj = ownr"
    using inv_record [OF inv, of j ownr] rec own by (auto simp: ids_datasets_upd)
next
  fix ownr show "distinct (get_owner_dataset_ids ?s' ownr)"
    using inv_distinct [OF inv] by (simp add: ids_datasets_upd)
next
  fix ownr show "length (get_owner_dataset_ids ?s' ownr) \<le> MAX_OWNER_DATASETS"
    using inv_length [OF inv] by (simp add: ids_datasets_upd)
qed

lemma registry_inv_update:
  assumes inv: "registry_inv s"
  shows "registry_inv (snd (update_dataset_metadata caller i nm descr dtype pub s))"
proof (cases "datasets s i")
  case None
  then show ?thesis using inv by (simp add: update_dataset_metadata_cases)
next
  case (Some d)
  show ?thesis
    using inv registry_inv_record_update [OF inv Some, of
        "d\<lparr>name := nm, description := descr, data_type := dtype, is_public := pub\<rparr>"]
    by (simp add: update_dataset_metadata_cases Some)
qed

lemma registry_inv_freeze:
  assumes inv: "registry_inv s"
  shows "registry_inv (snd (freeze_dataset_metadata caller i s))"
proof (cases "datasets s i")
  case None
  then show ?thesis using inv by (simp add: freeze_dataset_metadata_cases)
next
  case (Some d)
  show ?thesis
    using inv registry_inv_record_update [OF inv Some, of "d\<lparr>metadata_frozen := True\<rparr>"]
    by (simp add: freeze_dataset_metadata_cases Some)
qed

lemma registry_inv_admin_paused:
  "registry_inv s \<Longrightarrow> registry_inv (s\<lparr>contract_admin := a\<rparr>)"
  "registry_inv s \<Longrightarrow> registry_inv (s\<lparr>contract_paused := p\<rparr>)"
  by (simp_all add: registry_inv_def ids_eq)

lemma registry_inv_set_admin:
  "registry_inv s \<Longrightarrow> registry_inv (snd (set_contract_admin caller new_admin s))"
  by (simp add: set_contract_admin_def set_contract_admin_body_def define_public_def
      registry_inv_admin_paused)

lemma registry_inv_set_paused:
  "registry_inv s \<Longrightarrow> registry_inv (snd (set_paused caller paused s))"
  by (simp add: set_paused_def set_paused_body_def define_public_def registry_inv_admin_paused)

text \<open>The transfer of a record on a registry that satisfies the invariant.\<close>

lemma transfer_dataset_inv_result:
  assumes inv: "registry_inv s" and rec: "datasets s i = Some d"
  shows "transfer_dataset caller i new_owner s =
     (let cur = (if new_owner = owner d then filter (\<lambda>x. x \<noteq> i) (get_owner_dataset_ids s (owner d))
                 else get_owner_dataset_ids s new_owner)
      in if contract_paused s then (Inl ERR_CONTRACT_PAUSED, s)
         else if caller \<noteq> owner d then (Inl ERR_NOT_AUTHORIZED, s)
         else if MAX_OWNER_DATASETS \<le> length cur then (Inl ERR_INVALID_PARAMS, s)
         else (Inr True,
               s\<lparr>datasets := (datasets s)(i \<mapsto> d\<lparr>owner := new_owner\<rparr>),
                 datasets_by_owner := (datasets_by_owner s)
                   (owner d \<mapsto> filter (\<lambda>x. x \<noteq> i) (get_owner_dataset_ids s (owner d)),
                    new_owner \<mapsto> cur @ [i])\<rparr>))"
proof -
  have "new_owner \<noteq> owner d \<Longrightarrow> i \<notin> set (get_owner_dataset_ids s new_owner)"
    using inv_record [OF inv, of i new_owner] rec by auto
  then show ?thesis
    by (auto simp: transfer_dataset_cases rec Let_def ids_eq)
qed

lemma registry_inv_transfer:
  assumes inv: "registry_inv s"
  shows "registry_inv (snd (transfer_dataset caller i new_owner s))"
proof (cases "datasets s i")
  case None
  then show ?thesis using inv by (simp add: transfer_dataset_cases)
next
  case (Some d)
  define old where "old = owner d"
  define rest where "rest = filter (\<lambda>x. x \<noteq> i) (get_owner_dataset_ids s old)"
  define cur where "cur = (if new_owner = old then rest else get_owner_dataset_ids s new_owner)"
  define s' where "s' = s\<lparr>datasets := (datasets s)(i \<mapsto> d\<lparr>owner := new_owner\<rparr>),
                 datasets_by_owner := (datasets_by_owner s)(old \<mapsto> rest, new_owner \<mapsto> cur @ [i])\<rparr>"
  have notin_cur: "i \<notin> set cur"
    using inv_record [OF inv, of i new_owner] Some by (auto simp: cur_def rest_def old_def)
  have cur_sub: "set cur \<subseteq> set (get_owner_dataset_ids s new_owner)"
    by (auto simp: cur_def rest_def)
  have cur_sup: "set (get_owner_dataset_ids s new_owner) - {i} \<subseteq> set cur"
    by (auto simp: cur_def rest_def)
  have dist_cur: "distinct cur"
    using inv_distinct [OF inv] by (simp add: cur_def rest_def)
  have ids': "\<And>ownr. get_owner_dataset_ids s' ownr =
      (if ownr = new_owner then cur @ [i] else if ownr = old then rest
       else get_owner_dataset_ids s ownr)"
    by (simp add: ids_eq s'_def)
  have ds': "\<And>j. datasets s' j = (if j = i then Some (d\<lparr>owner := new_owner\<rparr>) else datasets s j)"
    by (simp add: s'_def)
  have cnt': "dataset_counter s' = dataset_counter s"
    by (simp add: s'_def)
  have len_rest: "length rest \<le> MAX_OWNER_DATASETS"
    unfolding rest_def by (rule le_trans [OF length_filter_le inv_length [OF inv]])
  have step: "length cur < MAX_OWNER_DATASETS \<Longrightarrow> registry_inv s'"
  proof (rule registry_invI)
    fix j dj assume "datasets s' j = Some dj"
    then show "j \<in> set (get_owner_dataset_ids s' (owner dj))"
      using inv_listed [OF inv, of j dj] cur_sup
      by (auto simp: ids' ds' rest_def split: if_splits)
  next
    fix j dj assume "datasets s' j = Some dj"
    then show "j \<le> dataset_counter s'"
      using inv_le_counter [OF inv, of j dj] inv_le_counter [OF inv Some]
      by (auto simp: ds' cnt' split: if_splits)
  next
    fix ownr j assume "j \<in> set (get_owner_dataset_ids s' ownr)"
    then show "\<exists>dj. datasets s' j = Some dj \<and> owner dj = ownr"
      using inv_record [OF inv, of j ownr] notin_cur cur_sub Some
      by (auto simp: ids' ds' rest_def old_def split: if_splits)
  next
    fix ownr show "distinct (get_owner_dataset_ids s' ownr)"
      using inv_distinct [OF inv] dist_cur notin_cur by (simp add: ids' rest_def)
  next
    fix ownr assume "length cur < MAX_OWNER_DATASETS"
    then show "length (get_owner_dataset_ids s' ownr) \<le> MAX_OWNER_DATASETS"
      using inv_length [OF inv, of ownr] len_rest by (simp add: ids')
  qed
  have res: "transfer_dataset caller i new_owner s =
      (if contract_paused s then (Inl ERR_CONTRACT_PAUSED, s)
       else if caller \<noteq> old then (Inl ERR_NOT_AUTHORIZED, s)
       else if MAX_OWNER_DATASETS \<le> length cur then (Inl ERR_INVALID_PARAMS, s)
       else (Inr True, s'))"
    by (simp add: transfer_dataset_inv_result [OF inv Some] Let_def s'_def cur_def rest_def
        old_def)
  show ?thesis
    unfolding res using inv step by (simp add: not_le)
qed

lemma registry_inv_apply_call: "registry_inv s \<Longrightarrow> registry_inv (apply_call c s)"
  by (cases c)
    (simp_all add: registry_inv_register registry_inv_update registry_inv_freeze
      registry_inv_transfer registry_inv_import registry_inv_set_admin registry_inv_set_paused)

lemma reachable_inv: "reachable s \<Longrightarrow> registry_inv s"
  by (induction rule: reachable.induct) (simp_all add: registry_inv_init registry_inv_apply_call)

lemma reachable_run_calls: "reachable s \<Longrightarrow> reachable (run_calls cs s)"
  by (induction cs arbitrary: s) (simp_all add: reachable_step)

lemma registry_inv_run_calls: "registry_inv s \<Longrightarrow> registry_inv (run_calls cs s)"
  by (induction cs arbitrary: s) (simp_all add: registry_inv_apply_call)



section \<open>The claims\<close>

subsection \<open>C1: the pause gate and the admin\<close>

text \<open>
  C1, as stated, fails: the admin pauses a fresh registry and then registers a dataset;
  the call fails with \<open>ERR-CONTRACT-PAUSED\<close>. \<open>check-not-paused\<close> reads the pause flag
  only, and \<open>import-dataset\<close> applies it to a caller it has just checked to be the admin.
\<close>

theorem admin_bypasses_pause_counterexample:
  "contract_admin (apply_call (SetPaused ''admin'' True) (init_registry ''admin'')) = ''admin''
   \<and> contract_paused (apply_call (SetPaused ''admin'' True) (init_registry ''admin''))
   \<and> fst (register_dataset ''admin'' 7 ''Temperature Data'' ''Atmospheric dataset''
            ''temperature'' 1640995200 1000 5000 40000000 (-74000000) ''QmTestHash123'' True
            (apply_call (SetPaused ''admin'' True) (init_registry ''admin'')))
       = Inl ERR_CONTRACT_PAUSED"
  by (simp add: eval_defs)

text \<open>
  C1, amended: the pause gate applies to every caller, the admin included. On a paused
  registry \<open>register\<close> fails with \<open>ERR-CONTRACT-PAUSED\<close> for every caller (the counter being
  below the largest \<open>uint\<close>), \<open>update_metadata\<close>, \<open>freeze\<close> and \<open>transfer\<close> fail with it
  for every caller on every existing identifier, and \<open>import\<close> fails with it for the
  admin; the registry is unchanged.
\<close>

theorem pause_gate_applies_to_every_caller:
  assumes "contract_paused s"
  shows "(dataset_counter s < uint_max \<longrightarrow>
            register_dataset caller now nm descr dtype cdate alt_min alt_max lat lon ipfs pub s
              = (Inl ERR_CONTRACT_PAUSED, s))
       \<and> (datasets s i \<noteq> None \<longrightarrow>
            update_dataset_metadata caller i nm descr dtype pub s = (Inl ERR_CONTRACT_PAUSED, s)
          \<and> freeze_dataset_metadata caller i s = (Inl ERR_CONTRACT_PAUSED, s)
          \<and> transfer_dataset caller i new_owner s = (Inl ERR_CONTRACT_PAUSED, s))
       \<and> (caller = contract_admin s \<longrightarrow>
            import_dataset caller i ownr nm descr dtype cdate alt_min alt_max lat lon ipfs pub
              frozen created st s = (Inl ERR_CONTRACT_PAUSED, s))"
  using assms
  by (auto simp: public_defs define_public_def check_not_paused_def uint_add_def)

text \<open>Witness for C1 amended: the admin on the paused sample registry.\<close>

theorem pause_gate_applies_to_every_caller_witness:
  "update_dataset_metadata ''admin'' 1 ''x'' ''y'' ''z'' False
      (run_calls [register_sample ''admin'', SetPaused ''admin'' True] (init_registry ''admin''))
     = (Inl ERR_CONTRACT_PAUSED,
        run_calls [register_sample ''admin'', SetPaused ''admin'' True] (init_registry ''admin''))
   \<and> import_sample ''admin'' 5 ''alice''
      (run_calls [register_sample ''admin'', SetPaused ''admin'' True] (init_registry ''admin''))
     = (Inl ERR_CONTRACT_PAUSED,
        run_calls [register_sample ''admin'', SetPaused ''admin'' True] (init_registry ''admin''))"
proof -
  let ?s = "run_calls [register_sample ''admin'', SetPaused ''admin'' True]
              (init_registry ''admin'')"
  have p: "contract_paused ?s"
    by (simp add: eval_defs)
  have d: "datasets ?s 1 \<noteq> None"
    by (simp add: eval_defs)
  have a: "''admin'' = contract_admin ?s"
    by (simp add: eval_defs)
  show ?thesis
    unfolding import_sample_def
    using pause_gate_applies_to_every_caller [OF p, of "''admin''" _ "''x''" "''y''" "''z''"
        _ _ _ _ _ _ False 1] d
      pause_gate_applies_to_every_caller [OF p, of "''admin''" _ "''Temperature Data''"
        "''Atmospheric dataset''" "''temperature''" 1640995200 1000 5000 40000000
        "-74000000" "''QmTestHash123''" True 5 _ "''alice''" True 3 "''deprecated''"] a
    by blast
qed

subsection \<open>C2: a failed call changes nothing\<close>

text \<open>
  C2: whenever \<open>register\<close>, \<open>update_metadata\<close>, \<open>freeze\<close>, \<open>transfer\<close> or \<open>import\<close> returns an
  error, the registry after the call (records, owner index, counter, admin, pause flag) is
  the registry before it. In particular a transfer by the owner to another principal whose
  list is full, on a registry that is not paused, fails with \<open>ERR-INVALID-PARAMS\<close> and leaves
  the registry as it was: the record keeps its owner and the old owner's list is intact.
\<close>

theorem failed_call_leaves_registry_unchanged:
  "(isl (fst (register_dataset caller now nm descr dtype cdate alt_min alt_max lat lon ipfs pub s))
      \<longrightarrow> snd (register_dataset caller now nm descr dtype cdate alt_min alt_max lat lon ipfs pub s) = s)
   \<and> (isl (fst (update_dataset_metadata caller i nm descr dtype pub s))
      \<longrightarrow> snd (update_dataset_metadata caller i nm descr dtype pub s) = s)
   \<and> (isl (fst (freeze_dataset_metadata caller i s))
      \<longrightarrow> snd (freeze_dataset_metadata caller i s) = s)
   \<and> (isl (fst (transfer_dataset caller i new_owner s))
      \<longrightarrow> snd (transfer_dataset caller i new_owner s) = s)
   \<and> (isl (fst (import_dataset caller i ownr nm descr dtype cdate alt_min alt_max lat lon ipfs
                  pub frozen created st s))
      \<longrightarrow> snd (import_dataset caller i ownr nm descr dtype cdate alt_min alt_max lat lon ipfs
                  pub frozen created st s) = s)
   \<and> (\<forall>d. datasets s i = Some d \<and> \<not> contract_paused s \<and> caller = owner d
          \<and> new_owner \<noteq> owner d \<and> i \<notin> set (get_owner_dataset_ids s new_owner)
          \<and> length (get_owner_dataset_ids s new_owner) = MAX_OWNER_DATASETS
      \<longrightarrow> transfer_dataset caller i new_owner s = (Inl ERR_INVALID_PARAMS, s))"
proof -
  have last: "\<forall>d. datasets s i = Some d \<and> \<not> contract_paused s \<and> caller = owner d
          \<and> new_owner \<noteq> owner d \<and> i \<notin> set (get_owner_dataset_ids s new_owner)
          \<and> length (get_owner_dataset_ids s new_owner) = MAX_OWNER_DATASETS
      \<longrightarrow> transfer_dataset caller i new_owner s = (Inl ERR_INVALID_PARAMS, s)"
    by (auto simp: transfer_dataset_cases ids_eq)
  have keep: "\<And>body :: registry \<Rightarrow> (error + 'x) \<times> registry.
      isl (fst (define_public body s)) \<longrightarrow> snd (define_public body s) = s"
    by (simp add: define_public_error_keeps)
  show ?thesis
    unfolding register_dataset_def update_dataset_metadata_def freeze_dataset_metadata_def
      import_dataset_def
    by (intro conjI keep last keep [of "transfer_dataset_body caller i new_owner",
          folded transfer_dataset_def])
qed

text \<open>
  Witness for C2: record 1 belongs to alice and bob's list holds 1000 identifiers; the
  transfer of record 1 to bob fails and the record still belongs to alice.
\<close>

theorem failed_call_leaves_registry_unchanged_witness:
  "transfer_dataset ''alice'' 1 ''bob'' full_index_registry
     = (Inl ERR_INVALID_PARAMS, full_index_registry)
   \<and> owner (the (datasets (snd (transfer_dataset ''alice'' 1 ''bob'' full_index_registry)) 1))
     = ''alice''"
proof -
  have h: "datasets full_index_registry 1 = Some (sample_dataset ''alice'' False)
      \<and> \<not> contract_paused full_index_registry
      \<and> ''alice'' = owner (sample_dataset ''alice'' False)
      \<and> ''bob'' \<noteq> owner (sample_dataset ''alice'' False)
      \<and> 1 \<notin> set (get_owner_dataset_ids full_index_registry ''bob'')
      \<and> length (get_owner_dataset_ids full_index_registry ''bob'') = MAX_OWNER_DATASETS"
    by (simp add: full_index_registry_def sample_dataset_def get_owner_dataset_ids_def
        get_owner_entry_def MAX_OWNER_DATASETS_def)
  have "transfer_dataset ''alice'' 1 ''bob'' full_index_registry
     = (Inl ERR_INVALID_PARAMS, full_index_registry)"
    using failed_call_leaves_registry_unchanged
      [of "''alice''" 0 "[]" "[]" "[]" 0 0 0 0 0 "[]" False full_index_registry 1 "''bob''"
          "[]" False 0 "[]"] h
    by blast
  then show ?thesis
    by (simp add: full_index_registry_def sample_dataset_def)
qed

subsection \<open>C3: the freeze flag is one-way\<close>



subsection \<open>C4: what a successful transfer does\<close>

text \<open>
  C4: in a reachable registry, let record \<open>i\<close> belong to \<open>old_owner\<close> and let the transfer of
  \<open>i\<close> by \<open>old_owner\<close> to \<open>new_owner\<close> succeed. Then the record's owner is \<open>new_owner\<close> and
  nothing else of the record changes; \<open>i\<close> occurred exactly once in the old owner's list
  and that list loses it, the other identifiers keeping their order; \<open>i\<close> was not in the
  new owner's list, is appended at its end, and occurs there exactly once. When the owner
  transfers to itself the two steps act on the same list: \<open>i\<close> moves to its end.
\<close>

theorem transfer_dataset_moves_id:
  assumes "reachable s" and "datasets s i = Some d" and "owner d = old_owner"
    and "fst (transfer_dataset old_owner i new_owner s) = Inr b"
  shows "datasets (snd (transfer_dataset old_owner i new_owner s)) i
           = Some (d\<lparr>owner := new_owner\<rparr>)
       \<and> count_list (get_owner_dataset_ids s old_owner) i = 1
       \<and> (new_owner \<noteq> old_owner \<longrightarrow>
            get_owner_dataset_ids (snd (transfer_dataset old_owner i new_owner s)) old_owner
              = filter (\<lambda>x. x \<noteq> i) (get_owner_dataset_ids s old_owner)
          \<and> i \<notin> set (get_owner_dataset_ids s new_owner)
          \<and> get_owner_dataset_ids (snd (transfer_dataset old_owner i new_owner s)) new_owner
              = get_owner_dataset_ids s new_owner @ [i])
       \<and> (new_owner = old_owner \<longrightarrow>
            get_owner_dataset_ids (snd (transfer_dataset old_owner i new_owner s)) old_owner
              = filter (\<lambda>x. x \<noteq> i) (get_owner_dataset_ids s old_owner) @ [i])
       \<and> count_list
           (get_owner_dataset_ids (snd (transfer_dataset old_owner i new_owner s)) new_owner) i
           = 1"
proof -
  let ?s' = "snd (transfer_dataset old_owner i new_owner s)"
  have inv: "registry_inv s" using assms(1) by (rule reachable_inv)
  have listed: "i \<in> set (get_owner_dataset_ids s old_owner)"
    using inv_listed [OF inv assms(2)] assms(3) by simp
  have once: "count_list (get_owner_dataset_ids s old_owner) i = 1"
    using inv_distinct [OF inv] listed by (rule count_list_distinct)
  have other: "new_owner \<noteq> old_owner \<Longrightarrow> i \<notin> set (get_owner_dataset_ids s new_owner)"
    using inv_record [OF inv, of i new_owner] assms(2,3) by auto
  have inv': "registry_inv ?s'"
    using inv by (rule registry_inv_transfer)
  have rec': "datasets ?s' i = Some (d\<lparr>owner := new_owner\<rparr>)"
    using assms(3,4)
    by (auto simp: transfer_dataset_inv_result [OF inv assms(2)] Let_def split: if_splits)
  have once': "count_list (get_owner_dataset_ids ?s' new_owner) i = 1"
    using inv_distinct [OF inv'] inv_listed [OF inv' rec'] by (simp add: count_list_distinct)
  have ids_old: "new_owner \<noteq> old_owner \<Longrightarrow>
      get_owner_dataset_ids ?s' old_owner
        = filter (\<lambda>x. x \<noteq> i) (get_owner_dataset_ids s old_owner)"
    using assms(3,4)
    by (auto simp: transfer_dataset_inv_result [OF inv assms(2)] Let_def ids_eq split: if_splits)
  have ids_new: "new_owner \<noteq> old_owner \<Longrightarrow>
      get_owner_dataset_ids ?s' new_owner = get_owner_dataset_ids s new_owner @ [i]"
    using assms(3,4)
    by (auto simp: transfer_dataset_inv_result [OF inv assms(2)] Let_def ids_eq split: if_splits)
  have ids_self: "new_owner = old_owner \<Longrightarrow>
      get_owner_dataset_ids ?s' old_owner
        = filter (\<lambda>x. x \<noteq> i) (get_owner_dataset_ids s old_owner) @ [i]"
    using assms(3,4)
    by (auto simp: transfer_dataset_inv_result [OF inv assms(2)] Let_def ids_eq split: if_splits)
  show ?thesis
    using rec' once other once' ids_old ids_new ids_self by blast
qed

text \<open>
  Witness for C4: alice registers records 1 and 2, bob record 3; alice transfers record 1
  to bob. Alice's list becomes \<open>[2]\<close> and bob's \<open>[3, 1]\<close>.
\<close>

theorem transfer_dataset_moves_id_witness:
  "get_owner_dataset_ids
     (snd (transfer_dataset ''alice'' 1 ''bob''
        (run_calls [register_sample ''alice'', register_sample ''alice'', register_sample ''bob'']
           (init_registry ''admin'')))) ''alice'' = [2]
   \<and> get_owner_dataset_ids
     (snd (transfer_dataset ''alice'' 1 ''bob''
        (run_calls [register_sample ''alice'', register_sample ''alice'', register_sample ''bob'']
           (init_registry ''admin'')))) ''bob'' = [3, 1]"
proof -
  let ?s = "run_calls [register_sample ''alice'', register_sample ''alice'', register_sample ''bob'']
           (init_registry ''admin'')"
  have r: "reachable ?s"
    by (intro reachable_run_calls reachable_init)
  have d: "datasets ?s 1 = Some (sample_dataset ''alice'' False)"
    by (simp add: eval_defs)
  have o: "owner (sample_dataset ''alice'' False) = ''alice''"
    by (simp add: sample_dataset_def)
  have t: "fst (transfer_dataset ''alice'' 1 ''bob'' ?s) = Inr True"
    by (simp add: eval_defs)
  have a: "get_owner_dataset_ids ?s ''alice'' = [1, 2]"
    by (simp add: eval_defs)
  have b: "get_owner_dataset_ids ?s ''bob'' = [3]"
    by (simp add: eval_defs)
  have ne: "''bob'' \<noteq> ''alice''"
    by simp
  note moved = transfer_dataset_moves_id [OF r d o t]
  have "get_owner_dataset_ids (snd (transfer_dataset ''alice'' 1 ''bob'' ?s)) ''alice''
      = filter (\<lambda>x. x \<noteq> 1) (get_owner_dataset_ids ?s ''alice'')"
    using moved ne by blast
  then have left: "get_owner_dataset_ids (snd (transfer_dataset ''alice'' 1 ''bob'' ?s)) ''alice''
      = [2]"
    by (simp only: a) simp
  have "get_owner_dataset_ids (snd (transfer_dataset ''alice'' 1 ''bob'' ?s)) ''bob''
      = get_owner_dataset_ids ?s ''bob'' @ [1]"
    using moved ne by blast
  then have right: "get_owner_dataset_ids (snd (transfer_dataset ''alice'' 1 ''bob'' ?s)) ''bob''
      = [3, 1]"
    by (simp only: b) simp
  show ?thesis
    using left right by (rule conjI)
qed

subsection \<open>C5: a page of the global identifier space\<close>

text \<open>
  C5, as stated, fails at the upper end of \<open>uint\<close>: the admin imports a dataset with the
  largest identifier, so the counter is \<open>2^128 - 1\<close>; the page at offset \<open>2^128 - 2\<close> with
  limit 1 should be that one identifier with no cursor, but \<open>(+ last u1)\<close> overflows and
  the call aborts.
\<close>

theorem get_dataset_ids_page_overflow_counterexample:
  "dataset_counter (snd (import_sample ''admin'' uint_max ''alice'' (init_registry ''admin'')))
     = uint_max
   \<and> get_dataset_ids_page
       (snd (import_sample ''admin'' uint_max ''alice'' (init_registry ''admin'')))
       (uint_max - 1) 1 = Inl ArithmeticOverflow
   \<and> get_dataset_ids_page
       (snd (import_sample ''admin'' uint_max ''alice'' (init_registry ''admin'')))
       (uint_max - 1) 1 \<noteq> Inr \<lparr>items = [uint_max], next_offset = None\<rparr>"
  by (simp add: eval_defs get_dataset_ids_page_def)

text \<open>
  C5, amended: for every counter, offset and limit the page is empty with no cursor when
  the counter is 0 or the offset is not below the counter. Otherwise, with
  \<open>last = min (offset + min limit MAX_PAGE_SIZE) counter\<close>: when \<open>offset + min limit
  MAX_PAGE_SIZE\<close> or \<open>last + 1\<close> exceeds the largest \<open>uint\<close> the call aborts with an
  arithmetic overflow; when both fit, the page holds exactly the identifiers \<open>offset + 1\<close>
  to \<open>last\<close> in increasing order, and the cursor is \<open>offset + returned_count\<close> when that is
  below the counter and none otherwise.
\<close>

theorem get_dataset_ids_page_result:
  "get_dataset_ids_page s offset limit =
     (let counter = dataset_counter s;
          last_id = min (offset + min limit MAX_PAGE_SIZE) counter;
          ids = [offset + 1 ..< last_id + 1]
      in if counter = 0 \<or> counter \<le> offset then Inr \<lparr>items = [], next_offset = None\<rparr>
         else if uint_max < offset + min limit MAX_PAGE_SIZE \<or> uint_max < last_id + 1
           then Inl ArithmeticOverflow
         else Inr \<lparr>items = ids,
                   next_offset = (if offset + length ids < counter
                                  then Some (offset + length ids) else None)\<rparr>)"
  by (auto simp: get_dataset_ids_page_def Let_def uint_add_def page_next_offset_def
        range_list_def min_def)

text \<open>
  Witness for C5 amended: with the counter at 10, offset 3 and limit 4 give the identifiers
  4 to 7 and the cursor 7; offset 8 and limit 500 give 9 and 10 and no cursor.
\<close>

theorem get_dataset_ids_page_result_witness:
  "get_dataset_ids_page (snd (import_sample ''admin'' 10 ''alice'' (init_registry ''admin''))) 3 4
     = Inr \<lparr>items = [4, 5, 6, 7], next_offset = Some 7\<rparr>
   \<and> get_dataset_ids_page (snd (import_sample ''admin'' 10 ''alice'' (init_registry ''admin''))) 8 500
     = Inr \<lparr>items = [9, 10], next_offset = None\<rparr>"
proof -
  let ?s = "snd (import_sample ''admin'' 10 ''alice'' (init_registry ''admin''))"
  have c: "dataset_counter ?s = 10"
    by (simp add: eval_defs)
  show ?thesis
    using get_dataset_ids_page_result [of ?s 3 4] get_dataset_ids_page_result [of ?s 8 500]
    by (simp add: c Let_def MAX_PAGE_SIZE_def uint_max_value)
qed

subsection \<open>C6: the validator\<close>

text \<open>
  C6: \<open>validate-fields\<close> returns false exactly when the name, the description or the data
  type is empty, or the collection date is 0, or the maximum altitude is below the minimum,
  or the latitude is outside \<open>[-90000000, 90000000]\<close>, or the longitude is outside
  \<open>[-180000000, 180000000]\<close>, or the status is neither \<open>active\<close> nor \<open>deprecated\<close>. The
  content hash plays no part, so an empty one is accepted.
\<close>

theorem validate_fields_rejects_exactly:
  "(\<not> validate_fields nm descr dtype cdate alt_min alt_max lat lon ipfs st) =
     (nm = [] \<or> descr = [] \<or> dtype = [] \<or> cdate = 0 \<or> alt_max < alt_min \<or>
      lat < -90000000 \<or> 90000000 < lat \<or> lon < -180000000 \<or> 180000000 < lon \<or>
      (st \<noteq> ''active'' \<and> st \<noteq> ''deprecated''))"
proof -
  have ipfs_any: "length ipfs = 0 \<or> 1 \<le> length ipfs" by arith
  show ?thesis
    unfolding validate_fields_def is_valid_status_def
    using ipfs_any by (auto simp: len_ge1)
qed

text \<open>
  Witness for C6: the bounds of latitude and longitude are accepted, with an empty content
  hash, and one micro-degree beyond each bound is rejected.
\<close>

theorem validate_fields_rejects_exactly_witness:
  "validate_fields ''n'' ''d'' ''t'' 1 0 0 90000000 180000000 [] ''active''
   \<and> validate_fields ''n'' ''d'' ''t'' 1 0 0 (-90000000) (-180000000) [] ''deprecated''
   \<and> \<not> validate_fields ''n'' ''d'' ''t'' 1 0 0 90000001 0 [] ''active''
   \<and> \<not> validate_fields ''n'' ''d'' ''t'' 1 0 0 (-90000001) 0 [] ''active''
   \<and> \<not> validate_fields ''n'' ''d'' ''t'' 1 0 0 0 180000001 [] ''active''
   \<and> \<not> validate_fields ''n'' ''d'' ''t'' 1 0 0 0 (-180000001) [] ''active''
   \<and> \<not> validate_fields ''n'' ''d'' ''t'' 1 5000 1000 0 0 [] ''active''"
  using validate_fields_rejects_exactly [of "''n''" "''d''" "''t''" 1 0 0 90000000 180000000 "[]" "''active''"]
    validate_fields_rejects_exactly [of "''n''" "''d''" "''t''" 1 0 0 "-90000000" "-180000000" "[]" "''deprecated''"]
    validate_fields_rejects_exactly [of "''n''" "''d''" "''t''" 1 0 0 90000001 0 "[]" "''active''"]
    validate_fields_rejects_exactly [of "''n''" "''d''" "''t''" 1 0 0 "-90000001" 0 "[]" "''active''"]
    validate_fields_rejects_exactly [of "''n''" "''d''" "''t''" 1 0 0 0 180000001 "[]" "''active''"]
    validate_fields_rejects_exactly [of "''n''" "''d''" "''t''" 1 0 0 0 "-180000001" "[]" "''active''"]
    validate_fields_rejects_exactly [of "''n''" "''d''" "''t''" 1 5000 1000 0 0 "[]" "''active''"]
  by simp

subsection \<open>C7: the admin's import\<close>

text \<open>
  C7, as stated, fails: on a paused registry an import by the admin with identifier 0
  fails with \<open>ERR-CONTRACT-PAUSED\<close>, not with \<open>ERR-INVALID-PARAMS\<close>.
\<close>

theorem import_dataset_paused_counterexample:
  "contract_admin (apply_call (SetPaused ''admin'' True) (init_registry ''admin'')) = ''admin''
   \<and> fst (import_sample ''admin'' 0 ''alice''
            (apply_call (SetPaused ''admin'' True) (init_registry ''admin'')))
       = Inl ERR_CONTRACT_PAUSED
   \<and> fst (import_sample ''admin'' 0 ''alice''
            (apply_call (SetPaused ''admin'' True) (init_registry ''admin'')))
       \<noteq> Inl ERR_INVALID_PARAMS"
  by (simp add: eval_defs)

text \<open>
  C7, amended: an import by the admin fails with \<open>ERR-CONTRACT-PAUSED\<close> on a paused
  registry. On a registry that is not paused it fails with \<open>ERR-INVALID-PARAMS\<close> when the
  identifier is 0; otherwise with \<open>ERR-DATASET-EXISTS\<close> when the identifier is present;
  otherwise with \<open>ERR-INVALID-PARAMS\<close> when the fields fail validation or the owner's list
  is full; otherwise it succeeds, writes the record with the supplied \<open>created-at\<close>, status
  and freeze flag, appends the identifier to the owner's list (unless it is listed
  already) and sets the counter to the maximum of the counter and the identifier.
\<close>

theorem import_dataset_by_admin:
  assumes "caller = contract_admin s"
  shows "(contract_paused s \<longrightarrow>
            import_dataset caller i ownr nm descr dtype cdate alt_min alt_max lat lon ipfs pub
              frozen created st s = (Inl ERR_CONTRACT_PAUSED, s))
       \<and> (\<not> contract_paused s \<and> i = 0 \<longrightarrow>
            import_dataset caller i ownr nm descr dtype cdate alt_min alt_max lat lon ipfs pub
              frozen created st s = (Inl ERR_INVALID_PARAMS, s))
       \<and> (\<not> contract_paused s \<and> 0 < i \<and> datasets s i \<noteq> None \<longrightarrow>
            import_dataset caller i ownr nm descr dtype cdate alt_min alt_max lat lon ipfs pub
              frozen created st s = (Inl ERR_DATASET_EXISTS, s))
       \<and> (\<not> contract_paused s \<and> 0 < i \<and> datasets s i = None
            \<and> (\<not> validate_fields nm descr dtype cdate alt_min alt_max lat lon ipfs st
               \<or> (i \<notin> set (get_owner_dataset_ids s ownr)
                  \<and> MAX_OWNER_DATASETS \<le> length (get_owner_dataset_ids s ownr))) \<longrightarrow>
            import_dataset caller i ownr nm descr dtype cdate alt_min alt_max lat lon ipfs pub
              frozen created st s = (Inl ERR_INVALID_PARAMS, s))
       \<and> (\<not> contract_paused s \<and> 0 < i \<and> datasets s i = None
            \<and> validate_fields nm descr dtype cdate alt_min alt_max lat lon ipfs st
            \<and> (i \<in> set (get_owner_dataset_ids s ownr)
               \<or> length (get_owner_dataset_ids s ownr) < MAX_OWNER_DATASETS) \<longrightarrow>
            import_dataset caller i ownr nm descr dtype cdate alt_min alt_max lat lon ipfs pub
              frozen created st s =
              (Inr i,
               s\<lparr>dataset_counter := max (dataset_counter s) i,
                 datasets := (datasets s)(i \<mapsto>
                   \<lparr>owner = ownr, name = nm, description = descr, data_type = dtype,
                    collection_date = cdate, altitude_min = alt_min,
                    altitude_max = alt_max, latitude = lat, longitude = lon,
                    ipfs_hash = ipfs, is_public = pub, metadata_frozen = frozen,
                    created_at = created, status = st\<rparr>),
                 datasets_by_owner :=
                   (if i \<in> set (get_owner_dataset_ids s ownr) then datasets_by_owner s
                    else (datasets_by_owner s)
                           (ownr \<mapsto> get_owner_dataset_ids s ownr @ [i]))\<rparr>))"
proof (cases "contract_paused s")
  case True
  then show ?thesis
    by (simp add: import_dataset_cases [OF assms] Let_def)
next
  case running: False
  show ?thesis
  proof (cases "i = 0 \<or> datasets s i \<noteq> None")
    case True
    with running show ?thesis
      by (auto simp: import_dataset_cases [OF assms] Let_def)
  next
    case False
    with running show ?thesis
      by (auto simp: import_dataset_cases [OF assms] Let_def)
  qed
qed

text \<open>
  Witness for C7 amended: with the counter at 10 the admin imports identifier 50 for carol;
  the call returns 50, the counter becomes 50, the record carries the supplied values and
  carol's list is \<open>[50]\<close>.
\<close>

theorem import_dataset_by_admin_witness:
  "fst (import_sample ''admin'' 50 ''carol''
          (snd (import_sample ''admin'' 10 ''alice'' (init_registry ''admin'')))) = Inr 50
   \<and> dataset_counter (snd (import_sample ''admin'' 50 ''carol''
          (snd (import_sample ''admin'' 10 ''alice'' (init_registry ''admin''))))) = 50
   \<and> get_owner_dataset_ids (snd (import_sample ''admin'' 50 ''carol''
          (snd (import_sample ''admin'' 10 ''alice'' (init_registry ''admin''))))) ''carol'' = [50]"
proof -
  let ?s = "snd (import_sample ''admin'' 10 ''alice'' (init_registry ''admin''))"
  have a: "''admin'' = contract_admin ?s"
    by (simp add: eval_defs)
  have c: "dataset_counter ?s = 10"
    by (simp add: eval_defs)
  have l: "get_owner_dataset_ids ?s ''carol'' = []"
    by (simp add: eval_defs)
  have h: "\<not> contract_paused ?s \<and> (0::nat) < 50 \<and> datasets ?s 50 = None
      \<and> validate_fields ''Temperature Data'' ''Atmospheric dataset'' ''temperature''
          1640995200 1000 5000 40000000 (-74000000) ''QmTestHash123'' ''deprecated''"
    by (simp add: eval_defs)
  have cap: "50 \<in> set (get_owner_dataset_ids ?s ''carol'')
      \<or> length (get_owner_dataset_ids ?s ''carol'') < MAX_OWNER_DATASETS"
    by (simp add: l MAX_OWNER_DATASETS_def)
  note imp = import_dataset_by_admin [OF a, of 50 "''carol''" "''Temperature Data''"
      "''Atmospheric dataset''" "''temperature''" 1640995200 1000 5000 40000000 "-74000000"
      "''QmTestHash123''" True True 3 "''deprecated''"]
  have res: "import_sample ''admin'' 50 ''carol'' ?s =
      (Inr 50,
       ?s\<lparr>dataset_counter := max (dataset_counter ?s) 50,
         datasets := (datasets ?s)(50 \<mapsto>
           \<lparr>owner = ''carol'', name = ''Temperature Data'',
            description = ''Atmospheric dataset'', data_type = ''temperature'',
            collection_date = 1640995200, altitude_min = 1000,
            altitude_max = 5000, latitude = 40000000, longitude = -74000000,
            ipfs_hash = ''QmTestHash123'', is_public = True, metadata_frozen = True,
            created_at = 3, status = ''deprecated''\<rparr>),
         datasets_by_owner :=
           (if 50 \<in> set (get_owner_dataset_ids ?s ''carol'') then datasets_by_owner ?s
            else (datasets_by_owner ?s)
                   (''carol'' \<mapsto> get_owner_dataset_ids ?s ''carol'' @ [50]))\<rparr>)"
    unfolding import_sample_def [of "''admin''" 50]
    using imp h cap by blast
  have one: "fst (import_sample ''admin'' 50 ''carol'' ?s) = Inr 50"
    by (simp only: res) simp
  have two: "dataset_counter (snd (import_sample ''admin'' 50 ''carol'' ?s)) = 50"
    by (simp only: res c) simp
  have three: "get_owner_dataset_ids (snd (import_sample ''admin'' 50 ''carol'' ?s)) ''carol''
      = [50]"
    by (simp only: res l) (simp add: ids_eq)
  show ?thesis
    using one two three by blast
qed

subsection \<open>C8: updating the metadata\<close>

text \<open>
  C8, as stated, fails for the admin, whom the pause gate is said to let through: alice
  registers record 1 and the admin pauses the registry; an update of record 1 by the admin,
  who is not its owner, fails with \<open>ERR-CONTRACT-PAUSED\<close>, not with \<open>ERR-NOT-AUTHORIZED\<close>.
\<close>

theorem update_dataset_metadata_admin_paused_counterexample:
  "contract_admin
      (run_calls [register_sample ''alice'', SetPaused ''admin'' True] (init_registry ''admin''))
     = ''admin''
   \<and> contract_paused
      (run_calls [register_sample ''alice'', SetPaused ''admin'' True] (init_registry ''admin''))
   \<and> owner (the (datasets
      (run_calls [register_sample ''alice'', SetPaused ''admin'' True] (init_registry ''admin''))
      1)) = ''alice''
   \<and> fst (update_dataset_metadata ''admin'' 1 ''x'' ''y'' ''z'' True
        (run_calls [register_sample ''alice'', SetPaused ''admin'' True]
           (init_registry ''admin''))) = Inl ERR_CONTRACT_PAUSED
   \<and> fst (update_dataset_metadata ''admin'' 1 ''x'' ''y'' ''z'' True
        (run_calls [register_sample ''alice'', SetPaused ''admin'' True]
           (init_registry ''admin''))) \<noteq> Inl ERR_NOT_AUTHORIZED"
  by (simp add: eval_defs)

text \<open>
  C8, amended: \<open>update_metadata\<close> fails with \<open>ERR-DATASET-NOT-FOUND\<close> when the identifier
  is absent. For an existing record it fails with \<open>ERR-CONTRACT-PAUSED\<close> when the registry
  is paused, whoever calls, the admin included; on a registry that is not paused it fails with \<open>ERR-NOT-AUTHORIZED\<close> when the
  caller is not the owner, otherwise with \<open>ERR-METADATA-FROZEN\<close> when the record is frozen
  (whatever the new values are), otherwise with \<open>ERR-INVALID-PARAMS\<close> when the name, the
  description or the data type is empty; otherwise it succeeds and replaces the name, the
  description, the data type and the public flag of that record and nothing else: the
  other ten fields of the record, every other record, the owner index, the counter, the
  admin and the pause flag are as before.
\<close>

theorem update_dataset_metadata_checks_and_frame:
  "(datasets s i = None \<longrightarrow>
      update_dataset_metadata caller i nm descr dtype pub s = (Inl ERR_DATASET_NOT_FOUND, s))
   \<and> (\<forall>d. datasets s i = Some d \<longrightarrow>
        (contract_paused s \<longrightarrow>
           update_dataset_metadata caller i nm descr dtype pub s = (Inl ERR_CONTRACT_PAUSED, s))
      \<and> (\<not> contract_paused s \<and> caller \<noteq> owner d \<longrightarrow>
           update_dataset_metadata caller i nm descr dtype pub s = (Inl ERR_NOT_AUTHORIZED, s))
      \<and> (\<not> contract_paused s \<and> caller = owner d \<and> metadata_frozen d \<longrightarrow>
           update_dataset_metadata caller i nm descr dtype pub s = (Inl ERR_METADATA_FROZEN, s))
      \<and> (\<not> contract_paused s \<and> caller = owner d \<and> \<not> metadata_frozen d
           \<and> (nm = [] \<or> descr = [] \<or> dtype = []) \<longrightarrow>
           update_dataset_metadata caller i nm descr dtype pub s = (Inl ERR_INVALID_PARAMS, s))
      \<and> (\<not> contract_paused s \<and> caller = owner d \<and> \<not> metadata_frozen d
           \<and> nm \<noteq> [] \<and> descr \<noteq> [] \<and> dtype \<noteq> [] \<longrightarrow>
           update_dataset_metadata caller i nm descr dtype pub s =
             (Inr True,
              s\<lparr>datasets := (datasets s)(i \<mapsto>
                   \<lparr>owner = owner d, name = nm, description = descr, data_type = dtype,
                    collection_date = collection_date d, altitude_min = altitude_min d,
                    altitude_max = altitude_max d, latitude = latitude d,
                    longitude = longitude d, ipfs_hash = ipfs_hash d, is_public = pub,
                    metadata_frozen = metadata_frozen d, created_at = created_at d,
                    status = status d\<rparr>)\<rparr>)))"
proof (cases "datasets s i")
  case None
  then show ?thesis
    by (simp add: update_dataset_metadata_cases)
next
  case (Some d)
  show ?thesis
  proof (cases "contract_paused s \<or> caller \<noteq> owner d \<or> metadata_frozen d")
    case True
    with Some show ?thesis
      by (auto simp: update_dataset_metadata_cases)
  next
    case False
    with Some show ?thesis
      by (auto simp: update_dataset_metadata_cases metadata_update_fields)
  qed
qed

text \<open>
  Witness for C8 amended: alice registers record 1 and updates it; bob's update fails with
  \<open>ERR-NOT-AUTHORIZED\<close>; after alice's freeze her update fails with \<open>ERR-METADATA-FROZEN\<close>.
\<close>

theorem update_dataset_metadata_checks_and_frame_witness:
  "datasets (snd (update_dataset_metadata ''alice'' 1 ''x'' ''y'' ''z'' False
       (run_calls [register_sample ''alice''] (init_registry ''admin'')))) 1
     = Some ((sample_dataset ''alice'' False)
               \<lparr>name := ''x'', description := ''y'', data_type := ''z'', is_public := False\<rparr>)
   \<and> fst (update_dataset_metadata ''bob'' 1 ''x'' ''y'' ''z'' False
       (run_calls [register_sample ''alice''] (init_registry ''admin''))) = Inl ERR_NOT_AUTHORIZED
   \<and> fst (update_dataset_metadata ''alice'' 1 ''Temperature Data'' ''Atmospheric dataset''
            ''temperature'' True
       (run_calls [register_sample ''alice'', FreezeMetadata ''alice'' 1]
          (init_registry ''admin''))) = Inl ERR_METADATA_FROZEN"
proof -
  let ?s = "run_calls [register_sample ''alice''] (init_registry ''admin'')"
  let ?f = "run_calls [register_sample ''alice'', FreezeMetadata ''alice'' 1]
              (init_registry ''admin'')"
  have s: "datasets ?s 1 = Some (sample_dataset ''alice'' False) \<and> \<not> contract_paused ?s"
    by (simp add: eval_defs)
  have f: "datasets ?f 1 = Some (sample_dataset ''alice'' True) \<and> \<not> contract_paused ?f"
    by (simp add: eval_defs)
  have o: "owner (sample_dataset ''alice'' False) = ''alice''
      \<and> owner (sample_dataset ''alice'' True) = ''alice''
      \<and> \<not> metadata_frozen (sample_dataset ''alice'' False)
      \<and> metadata_frozen (sample_dataset ''alice'' True) \<and> ''bob'' \<noteq> ''alice''"
    by (simp add: sample_dataset_def)
  have "update_dataset_metadata ''alice'' 1 ''x'' ''y'' ''z'' False ?s =
      (Inr True, ?s\<lparr>datasets := (datasets ?s)(1 \<mapsto> (sample_dataset ''alice'' False)
               \<lparr>name := ''x'', description := ''y'', data_type := ''z'', is_public := False\<rparr>)\<rparr>)"
    using update_dataset_metadata_checks_and_frame [of ?s 1 "''alice''" "''x''" "''y''" "''z''" False]
      s o
    by (simp add: metadata_update_fields)
  then have one: "datasets (snd (update_dataset_metadata ''alice'' 1 ''x'' ''y'' ''z'' False ?s)) 1
     = Some ((sample_dataset ''alice'' False)
               \<lparr>name := ''x'', description := ''y'', data_type := ''z'', is_public := False\<rparr>)"
    by simp
  have two: "fst (update_dataset_metadata ''bob'' 1 ''x'' ''y'' ''z'' False ?s)
      = Inl ERR_NOT_AUTHORIZED"
    using update_dataset_metadata_checks_and_frame [of ?s 1 "''bob''" "''x''" "''y''" "''z''" False]
      s o
    by simp
  have three: "fst (update_dataset_metadata ''alice'' 1 ''Temperature Data''
      ''Atmospheric dataset'' ''temperature'' True ?f) = Inl ERR_METADATA_FROZEN"
    using update_dataset_metadata_checks_and_frame [of ?f 1 "''alice''" "''Temperature Data''"
        "''Atmospheric dataset''" "''temperature''" True] f o
    by simp
  show ?thesis
    using one two three by blast
qed

subsection \<open>C9: adding to the owner index\<close>

text \<open>
  C9: on a list within its bound of \<open>MAX_OWNER_DATASETS\<close> entries, \<open>add-dataset-to-owner\<close>
  succeeds and changes nothing when the identifier is already listed; when it is not
  listed and the list holds fewer than 1000 entries it appends the identifier at the end;
  it fails, with \<open>ERR-INVALID-PARAMS\<close>, exactly when the identifier is not listed and the
  list already holds 1000 entries, and then changes nothing. A second addition of the same
  identifier succeeds and changes nothing.
\<close>

theorem add_dataset_to_owner_idempotent_bounded:
  assumes "length (get_owner_dataset_ids s ownr) \<le> MAX_OWNER_DATASETS"
  shows "(i \<in> set (get_owner_dataset_ids s ownr) \<longrightarrow>
            add_dataset_to_owner ownr i s = (Inr True, s))
       \<and> (i \<notin> set (get_owner_dataset_ids s ownr)
            \<and> length (get_owner_dataset_ids s ownr) < 1000 \<longrightarrow>
            add_dataset_to_owner ownr i s =
              (Inr True, s\<lparr>datasets_by_owner :=
                 (datasets_by_owner s)(ownr \<mapsto> get_owner_dataset_ids s ownr @ [i])\<rparr>))
       \<and> (isl (fst (add_dataset_to_owner ownr i s)) =
            (i \<notin> set (get_owner_dataset_ids s ownr)
             \<and> length (get_owner_dataset_ids s ownr) = 1000))
       \<and> (isl (fst (add_dataset_to_owner ownr i s)) \<longrightarrow>
            add_dataset_to_owner ownr i s = (Inl ERR_INVALID_PARAMS, s))
       \<and> (fst (add_dataset_to_owner ownr i s) = Inr True \<longrightarrow>
            add_dataset_to_owner ownr i (snd (add_dataset_to_owner ownr i s))
              = (Inr True, snd (add_dataset_to_owner ownr i s)))"
  using assms by (simp add: add_dataset_to_owner_eq MAX_OWNER_DATASETS_def ids_after_append)

text \<open>
  Witness for C9: alice's list is \<open>[1]\<close>; adding 1 again changes nothing, and adding to
  bob's list of 1000 entries fails.
\<close>

theorem add_dataset_to_owner_idempotent_bounded_witness:
  "add_dataset_to_owner ''alice'' 1 full_index_registry = (Inr True, full_index_registry)
   \<and> add_dataset_to_owner ''bob'' 1 full_index_registry
       = (Inl ERR_INVALID_PARAMS, full_index_registry)"
proof -
  have a: "get_owner_dataset_ids full_index_registry ''alice'' = [1]"
    by (simp add: full_index_registry_def ids_eq)
  have b: "length (get_owner_dataset_ids full_index_registry ''bob'') = 1000
      \<and> 1 \<notin> set (get_owner_dataset_ids full_index_registry ''bob'')"
    by (simp add: full_index_registry_def ids_eq)
  have la: "length (get_owner_dataset_ids full_index_registry ''alice'') \<le> MAX_OWNER_DATASETS"
    by (simp add: a MAX_OWNER_DATASETS_def)
  have lb: "length (get_owner_dataset_ids full_index_registry ''bob'') \<le> MAX_OWNER_DATASETS"
    by (simp add: b MAX_OWNER_DATASETS_def)
  have one: "add_dataset_to_owner ''alice'' 1 full_index_registry = (Inr True, full_index_registry)"
    using add_dataset_to_owner_idempotent_bounded [OF la, of 1] by (simp add: a)
  have two: "add_dataset_to_owner ''bob'' 1 full_index_registry
       = (Inl ERR_INVALID_PARAMS, full_index_registry)"
    using add_dataset_to_owner_idempotent_bounded [OF lb, of 1] b by blast
  show ?thesis
    using one two by (rule conjI)
qed

subsection \<open>C10: the existence check comes before the pause gate\<close>

text \<open>
  C10: on a paused registry, \<open>update_metadata\<close>, \<open>freeze\<close> and \<open>transfer\<close> called with an
  identifier that has no record fail with \<open>ERR-DATASET-NOT-FOUND\<close>, not with
  \<open>ERR-CONTRACT-PAUSED\<close>, and leave the registry unchanged.
\<close>

theorem absent_id_not_found_when_paused:
  assumes "datasets s i = None" and "contract_paused s"
  shows "update_dataset_metadata caller i nm descr dtype pub s = (Inl ERR_DATASET_NOT_FOUND, s)
       \<and> freeze_dataset_metadata caller i s = (Inl ERR_DATASET_NOT_FOUND, s)
       \<and> transfer_dataset caller i new_owner s = (Inl ERR_DATASET_NOT_FOUND, s)"
  using assms by (simp add: public_defs define_public_def)

text \<open>Witness for C10: identifier 3 on a paused registry that holds record 1 only.\<close>

theorem absent_id_not_found_when_paused_witness:
  "fst (update_dataset_metadata ''alice'' 3 ''x'' ''y'' ''z'' True
          (run_calls [register_sample ''alice'', SetPaused ''admin'' True]
             (init_registry ''admin''))) = Inl ERR_DATASET_NOT_FOUND
   \<and> fst (freeze_dataset_metadata ''alice'' 3
          (run_calls [register_sample ''alice'', SetPaused ''admin'' True]
             (init_registry ''admin''))) = Inl ERR_DATASET_NOT_FOUND
   \<and> fst (transfer_dataset ''alice'' 3 ''bob''
          (run_calls [register_sample ''alice'', SetPaused ''admin'' True]
             (init_registry ''admin''))) = Inl ERR_DATASET_NOT_FOUND"
proof -
  let ?s = "run_calls [register_sample ''alice'', SetPaused ''admin'' True]
              (init_registry ''admin'')"
  have n: "datasets ?s 3 = None"
    by (simp add: eval_defs)
  have p: "contract_paused ?s"
    by (simp add: eval_defs)
  show ?thesis
    using absent_id_not_found_when_paused [OF n p, of "''alice''" "''x''" "''y''" "''z''" True
        "''bob''"]
    by simp
qed

end
